theory Spec2Isabelle
  imports Complex_Main "HOL-Library.Multiset" "HOL-Library.Sublist"
begin

section \<open>Data model of \<^verbatim>\<open>pogom/schedulers.py\<close>\<close>

text \<open>
  A location is the Python tuple \<^verbatim>\<open>(latitude, longitude, altitude)\<close>. Python floats are
  modelled by reals: the module does no arithmetic on coordinates, it only hands them to
  \<^verbatim>\<open>get_new_coords\<close> and copies components, and no property below depends on rounding.
\<close>

type_synonym coordinate = "real \<times> real \<times> real"

definition lat :: "coordinate \<Rightarrow> real" where
  "lat loc = fst loc"

definition lng :: "coordinate \<Rightarrow> real" where
  "lng loc = fst (snd loc)"

definition alt :: "coordinate \<Rightarrow> real" where
  "alt loc = snd (snd loc)"

text \<open>
  A queue item is the tuple
  \<^verbatim>\<open>(step, (latitude, longitude, altitude), appears_seconds, disappears_seconds)\<close>.
\<close>

type_synonym scan_item = "int \<times> coordinate \<times> int \<times> int"

definition item_step :: "scan_item \<Rightarrow> int" where
  "item_step item = fst item"

definition item_location :: "scan_item \<Rightarrow> coordinate" where
  "item_location item = fst (snd item)"

definition appears_seconds :: "scan_item \<Rightarrow> int" where
  "appears_seconds item = fst (snd (snd item))"

definition disappears_seconds :: "scan_item \<Rightarrow> int" where
  "disappears_seconds item = snd (snd (snd item))"

text \<open>
  \<^verbatim>\<open>get_new_coords(loc, distance, bearing)\<close> lives in \<^verbatim>\<open>pogom/transform.py\<close>, which is not
  part of the sources at hand. It is a parameter of the model, of the type the specification
  gives the geo primitive (a coordinate, a distance in km and a bearing in degrees to a
  coordinate), and it is taken to return: the module reads only components 0 and 1 of what it
  returns.
\<close>

type_synonym geo = "coordinate \<Rightarrow> real \<Rightarrow> int \<Rightarrow> coordinate"

section \<open>\<^verbatim>\<open>HexSearch._generate_locations\<close>: the spiral\<close>

definition NORTH :: int where "NORTH = 0"
definition EAST :: int where "EAST = 90"
definition SOUTH :: int where "SOUTH = 180"
definition WEST :: int where "WEST = 270"

text \<open>
  The walk carries the two variables the loops update: \<^verbatim>\<open>loc\<close> and \<^verbatim>\<open>results\<close>.
\<close>

type_synonym walk = "coordinate \<times> coordinate list"

text \<open>
  \<^verbatim>\<open>loc = get_new_coords(loc, d, b); results.append((loc[0], loc[1], 0))\<close>
\<close>

definition step1 :: "geo \<Rightarrow> real \<Rightarrow> int \<Rightarrow> walk \<Rightarrow> walk" where
  "step1 get_new_coords d b w =
     (let loc = get_new_coords (fst w) d b
      in (loc, snd w @ [(lat loc, lng loc, 0)]))"

text \<open>
  \<^verbatim>\<open>loc = get_new_coords(loc, d1, b1); loc = get_new_coords(loc, d2, b2);
  results.append((loc[0], loc[1], 0))\<close>
\<close>

definition step2 :: "geo \<Rightarrow> real \<Rightarrow> int \<Rightarrow> real \<Rightarrow> int \<Rightarrow> walk \<Rightarrow> walk" where
  "step2 get_new_coords d1 b1 d2 b2 w =
     (let loc = get_new_coords (fst w) d1 b1;
          loc = get_new_coords loc d2 b2
      in (loc, snd w @ [(lat loc, lng loc, 0)]))"

text \<open>
  \<^verbatim>\<open>for i in range(n): body\<close>, for a body that does not read \<^verbatim>\<open>i\<close>: \<^verbatim>\<open>range(n)\<close> is
  empty for \<^verbatim>\<open>n <= 0\<close>.
\<close>

definition for_range :: "int \<Rightarrow> ('s \<Rightarrow> 's) \<Rightarrow> 's \<Rightarrow> 's" where
  "for_range n body s = (body ^^ nat n) s"

text \<open>The body of the loop of the upper part (lines 124 to 139), for one ring.\<close>

definition upper_ring :: "geo \<Rightarrow> real \<Rightarrow> real \<Rightarrow> int \<Rightarrow> walk \<Rightarrow> walk" where
  "upper_ring get_new_coords xdist ydist ring w =
     (let w = step1 get_new_coords xdist (if ring mod 2 = 1 then WEST else EAST) w;
          w = for_range ring
                (step2 get_new_coords ydist NORTH (xdist / 2)
                   (if ring mod 2 = 1 then EAST else WEST)) w;
          w = for_range ring
                (step1 get_new_coords xdist (if ring mod 2 = 1 then EAST else WEST)) w;
          w = for_range ring
                (step2 get_new_coords ydist SOUTH (xdist / 2)
                   (if ring mod 2 = 1 then EAST else WEST)) w
      in w)"

text \<open>\<^verbatim>\<open>while ring < self.step_limit: ...; ring += 1\<close>\<close>

function upper_part :: "geo \<Rightarrow> real \<Rightarrow> real \<Rightarrow> int \<Rightarrow> int \<Rightarrow> walk \<Rightarrow> walk" where
  "upper_part get_new_coords xdist ydist step_limit ring w =
     (if ring < step_limit
      then upper_part get_new_coords xdist ydist step_limit (ring + 1)
             (upper_ring get_new_coords xdist ydist ring w)
      else w)"
  by pat_completeness auto
termination
  by (relation "measure (\<lambda>(g, xd, yd, step_limit, ring, w). nat (step_limit - ring))") auto

declare upper_part.simps [simp del]

text \<open>The body of the loop of the lower part (lines 152 to 172), for one ring.\<close>

definition lower_ring :: "geo \<Rightarrow> real \<Rightarrow> real \<Rightarrow> int \<Rightarrow> walk \<Rightarrow> walk" where
  "lower_ring get_new_coords xdist ydist ring w =
     (if ring = 1 then step1 get_new_coords xdist WEST w
      else
        (let w = for_range (ring - 1)
                   (step2 get_new_coords ydist SOUTH (xdist / 2)
                      (if ring mod 2 = 1 then WEST else EAST)) w;
             w = for_range ring
                   (step1 get_new_coords xdist (if ring mod 2 = 1 then WEST else EAST)) w;
             w = for_range (ring - 1)
                   (step2 get_new_coords ydist NORTH (xdist / 2)
                      (if ring mod 2 = 1 then WEST else EAST)) w;
             w = step1 get_new_coords xdist (if ring mod 2 = 1 then EAST else WEST) w
         in w))"

text \<open>\<^verbatim>\<open>while ring > 0: ...; ring -= 1\<close>\<close>

function lower_part :: "geo \<Rightarrow> real \<Rightarrow> real \<Rightarrow> int \<Rightarrow> walk \<Rightarrow> walk" where
  "lower_part get_new_coords xdist ydist ring w =
     (if ring > 0
      then lower_part get_new_coords xdist ydist (ring - 1)
             (lower_ring get_new_coords xdist ydist ring w)
      else w)"
  by pat_completeness auto
termination
  by (relation "measure (\<lambda>(g, xd, yd, ring, w). nat ring)") auto

declare lower_part.simps [simp del]

text \<open>
  Lines 110 to 174: the value of \<^verbatim>\<open>results\<close> before the rotation, from
  \<^verbatim>\<open>self.step_distance\<close>, \<^verbatim>\<open>self.step_limit\<close> and \<^verbatim>\<open>self.scan_location\<close>.
\<close>

definition spiral_results :: "geo \<Rightarrow> real \<Rightarrow> int \<Rightarrow> coordinate \<Rightarrow> coordinate list" where
  "spiral_results get_new_coords step_distance step_limit scan_location =
     (let xdist = sqrt 3 * step_distance;
          ydist = 3 * (step_distance / 2);
          results = [(lat scan_location, lng scan_location, 0)]
      in if step_limit > 1
         then
           (let w = upper_part get_new_coords xdist ydist step_limit 1
                      (scan_location, results);
                ring = step_limit - 1;
                w = step2 get_new_coords ydist SOUTH (xdist / 2)
                      (if ring mod 2 = 1 then WEST else EAST) w;
                w = lower_part get_new_coords xdist ydist ring w
            in snd w)
         else results)"

text \<open>
  Python slices with one bound: an index below 0 counts from the end, and a bound outside the
  list is clipped to it.
\<close>

definition slice_bound :: "int \<Rightarrow> 'a list \<Rightarrow> nat" where
  "slice_bound i xs =
     (let n = int (length xs); j = (if i < 0 then n + i else i)
      in nat (max 0 (min j n)))"

definition slice_from :: "int \<Rightarrow> 'a list \<Rightarrow> 'a list" where
  \<comment> \<open>\<^verbatim>\<open>xs[i:]\<close>\<close>
  "slice_from i xs = drop (slice_bound i xs) xs"

definition slice_upto :: "int \<Rightarrow> 'a list \<Rightarrow> 'a list" where
  \<comment> \<open>\<^verbatim>\<open>xs[:i]\<close>\<close>
  "slice_upto i xs = take (slice_bound i xs) xs"

text \<open>Lines 179 to 183: the last few steps are pulled to the front.\<close>

definition center_nugget :: "int \<Rightarrow> coordinate list \<Rightarrow> coordinate list" where
  "center_nugget step_limit results =
     (if step_limit \<ge> 3
      then (if step_limit = 3
            then slice_from (- 2) results @ slice_upto (- 2) results
            else slice_from (- 7) results @ slice_upto (- 7) results)
      else results)"

text \<open>\<^verbatim>\<open>enumerate(xs, start)\<close>\<close>

primrec enumerate_from :: "int \<Rightarrow> 'a list \<Rightarrow> (int \<times> 'a) list" where
  "enumerate_from start [] = []"
| "enumerate_from start (x # xs) = (start, x) # enumerate_from (start + 1) xs"

text \<open>Lines 186 to 189.\<close>

definition locationsZeroed :: "coordinate list \<Rightarrow> scan_item list" where
  "locationsZeroed results =
     map (\<lambda>(step, location). (step, (lat location, lng location, 0), 0, 0))
       (enumerate_from 1 results)"

text \<open>The whole of the method, once \<^verbatim>\<open>self.scan_location\<close> is known to be a location.\<close>

definition hex_locations :: "geo \<Rightarrow> real \<Rightarrow> int \<Rightarrow> coordinate \<Rightarrow> scan_item list" where
  "hex_locations get_new_coords step_distance step_limit scan_location =
     locationsZeroed
       (center_nugget step_limit
          (spiral_results get_new_coords step_distance step_limit scan_location))"

section \<open>The scheduler objects\<close>

text \<open>
  The exceptions that the code of this module can raise: \<^verbatim>\<open>self.queues[0]\<close> on an empty
  list of queues, and subscripting or iterating \<^verbatim>\<open>False\<close>, the value of
  \<^verbatim>\<open>self.scan_location\<close> and of \<^verbatim>\<open>self.locations\<close> before they are set.
\<close>

datatype error = IndexError | TypeError

type_synonym 'a result = "error + 'a"

text \<open>The arguments a scheduler reads from \<^verbatim>\<open>args\<close>.\<close>

record args =
  args_no_pokemon :: bool
  args_step_limit :: int

text \<open>The status dicts of the workers are kept by the scheduler and never read here.\<close>

typedecl worker_status

text \<open>
  What the module writes to its logger: the two warnings, and the debug line of
  \<^verbatim>\<open>schedule\<close> with the item it formats.
\<close>

datatype log_record = WARNING string | DEBUG_Added_location scan_item

text \<open>
  \<^verbatim>\<open>HexSearch\<close> and its subclass \<^verbatim>\<open>SpawnOnlyHexSearch\<close> have the same fields; the class
  of the object decides which \<^verbatim>\<open>_generate_locations\<close> a call of
  \<^verbatim>\<open>self._generate_locations()\<close> runs.
\<close>

datatype scheduler_class = HexSearch | SpawnOnlyHexSearch

text \<open>
  The fields of the object are those \<^verbatim>\<open>__init__\<close> sets. \<^verbatim>\<open>scan_location\<close> and
  \<^verbatim>\<open>locations\<close> hold \<^verbatim>\<open>False\<close> until they are set: \<open>None\<close> here. A location is a
  tuple of three numbers, which Python takes for true whatever the numbers; a list of items
  is taken for true unless it is empty. A queue is a FIFO
  without bound, the list of its items with the oldest first; the workers that take items
  from it at the same time are not part of this module.

  Two more fields record what a test observes from outside: \<open>log\<close>, the records written
  to the logger so far, and \<open>generate_calls\<close>, the number of calls
  \<^verbatim>\<open>self._generate_locations()\<close> made by \<^verbatim>\<open>schedule\<close> so far.
\<close>

record scheduler =
  cls :: scheduler_class
  queues :: "scan_item list list"
  status :: "worker_status list"
  args :: args
  scan_location :: "coordinate option"
  step_distance :: real
  step_limit :: int
  locations :: "scan_item list option"
  log :: "log_record list"
  generate_calls :: nat

text \<open>
  A row of \<^verbatim>\<open>Pokemon.get_spawnpoints\<close> is a dict read at the keys \<^verbatim>\<open>'latitude'\<close> and
  \<^verbatim>\<open>'longitude'\<close>.
\<close>

record spawnpoint_row =
  latitude :: real
  longitude :: real

text \<open>
  What the module imports and calls, as parameters: \<^verbatim>\<open>get_new_coords\<close> of
  \<^verbatim>\<open>pogom/transform.py\<close>, \<^verbatim>\<open>hex_bounds\<close> and \<^verbatim>\<open>Pokemon.get_spawnpoints\<close> of
  \<^verbatim>\<open>pogom/models.py\<close> (the store answers a bounding box with the same rows every time it
  is asked), and \<^verbatim>\<open>geopy.distance.distance(coords, x).meters\<close>. All four are taken to
  return.
\<close>

record externals =
  get_new_coords :: geo
  hex_bounds :: "coordinate \<Rightarrow> int \<Rightarrow> real \<times> real \<times> real \<times> real"
  get_spawnpoints :: "real \<Rightarrow> real \<Rightarrow> real \<Rightarrow> real \<Rightarrow> spawnpoint_row list"
  distance_meters :: "coordinate \<Rightarrow> real \<times> real \<Rightarrow> real"

text \<open>\<^verbatim>\<open>HexSearch.__init__\<close>, which first runs \<^verbatim>\<open>BaseScheduler.__init__\<close>.\<close>

definition HexSearch_init ::
  "scheduler_class \<Rightarrow> scan_item list list \<Rightarrow> worker_status list \<Rightarrow> args \<Rightarrow> scheduler" where
  "HexSearch_init c qs st a =
     \<lparr>cls = c, queues = qs, status = st, args = a, scan_location = None,
      step_distance = (if args_no_pokemon a then 0.900 else 0.070),
      step_limit = args_step_limit a,
      locations = None, log = [], generate_calls = 0\<rparr>"

subsection \<open>\<^verbatim>\<open>BaseScheduler.empty_queues\<close>\<close>

text \<open>\<^verbatim>\<open>queue.get_nowait()\<close>: \<open>None\<close> stands for the exception \<^verbatim>\<open>Empty\<close>.\<close>

definition get_nowait :: "'a list \<Rightarrow> ('a \<times> 'a list) option" where
  "get_nowait q = (case q of [] \<Rightarrow> None | x # q' \<Rightarrow> Some (x, q'))"

text \<open>
  \<^verbatim>\<open>try: while True: queue.get_nowait()  except Empty: pass\<close>
\<close>

function drain :: "'a list \<Rightarrow> 'a list" where
  "drain q = (case get_nowait q of None \<Rightarrow> q | Some (x, q') \<Rightarrow> drain q')"
  by pat_completeness auto
termination
  by (relation "measure length") (auto simp: get_nowait_def split: list.splits)

declare drain.simps [simp del]

definition empty_queues :: "scheduler \<Rightarrow> scheduler" where
  "empty_queues self =
     self\<lparr>queues := map (\<lambda>queue. if queue \<noteq> [] then drain queue else queue) (queues self)\<rparr>"

subsection \<open>\<^verbatim>\<open>location_changed\<close>, \<^verbatim>\<open>scanning_paused\<close>, \<^verbatim>\<open>scanning_unpause\<close>\<close>

text \<open>\<^verbatim>\<open>HexSearch.location_changed\<close> (lines 98 to 101).\<close>

definition location_changed :: "coordinate \<Rightarrow> scheduler \<Rightarrow> scheduler" where
  "location_changed new_location self =
     (let self = self\<lparr>scan_location := Some new_location\<rparr>;
          self = empty_queues self
      in self\<lparr>locations := None\<rparr>)"

definition scanning_paused :: "scheduler \<Rightarrow> scheduler" where
  "scanning_paused self = empty_queues self"

definition scanning_unpause :: "scheduler \<Rightarrow> scheduler" where
  "scanning_unpause self = self"

subsection \<open>The two \<^verbatim>\<open>_generate_locations\<close>\<close>

text \<open>
  \<^verbatim>\<open>HexSearch._generate_locations\<close>: \<^verbatim>\<open>self.scan_location[0]\<close> raises when the location
  is still \<^verbatim>\<open>False\<close>.
\<close>

definition HexSearch_generate_locations :: "externals \<Rightarrow> scheduler \<Rightarrow> scan_item list result" where
  "HexSearch_generate_locations ext self =
     (case scan_location self of
        None \<Rightarrow> Inl TypeError
      | Some loc \<Rightarrow>
          Inr (hex_locations (get_new_coords ext) (step_distance self) (step_limit self) loc))"

text \<open>\<^verbatim>\<open>SpawnOnlyHexSearch._any_spawnpoints_in_range\<close> (line 211).\<close>

definition any_spawnpoints_in_range ::
  "externals \<Rightarrow> coordinate \<Rightarrow> (real \<times> real) set \<Rightarrow> bool" where
  "any_spawnpoints_in_range ext coords spawnpoints =
     (\<exists>x \<in> spawnpoints. distance_meters ext coords x \<le> 70)"

text \<open>
  \<^verbatim>\<open>SpawnOnlyHexSearch._generate_locations\<close> (lines 214 to 227). It writes a warning when
  the store knows no spawnpoint, so it returns the scheduler as well. With the location
  still \<^verbatim>\<open>False\<close> the call of \<^verbatim>\<open>hex_bounds\<close> has no location to subscript.
\<close>

definition no_spawnpoints_warning :: log_record where
  "no_spawnpoints_warning =
     WARNING ''No spawnpoints found in the specified area!  (Did you forget to run a normal scan in this area first?)''"

definition spawnpoints_of :: "externals \<Rightarrow> coordinate \<Rightarrow> int \<Rightarrow> (real \<times> real) set" where
  "spawnpoints_of ext loc limit =
     (case hex_bounds ext loc limit of
        (n, e, s, w) \<Rightarrow> set (map (\<lambda>d. (latitude d, longitude d)) (get_spawnpoints ext s w n e)))"

definition SpawnOnlyHexSearch_generate_locations ::
  "externals \<Rightarrow> scheduler \<Rightarrow> scan_item list result \<times> scheduler" where
  "SpawnOnlyHexSearch_generate_locations ext self =
     (case scan_location self of
        None \<Rightarrow> (Inl TypeError, self)
      | Some loc \<Rightarrow>
          (let spawnpoints = spawnpoints_of ext loc (step_limit self);
               self = (if spawnpoints = {}
                       then self\<lparr>log := log self @ [no_spawnpoints_warning]\<rparr> else self)
           in case HexSearch_generate_locations ext self of
                Inl e \<Rightarrow> (Inl e, self)
              | Inr locs \<Rightarrow>
                  (Inr (filter (\<lambda>coords.
                          any_spawnpoints_in_range ext (item_location coords) spawnpoints) locs),
                   self)))"

text \<open>
  The call \<^verbatim>\<open>self._generate_locations()\<close> of \<^verbatim>\<open>schedule\<close>: the method of the object's
  class, counted.
\<close>

definition generate_locations ::
  "externals \<Rightarrow> scheduler \<Rightarrow> scan_item list result \<times> scheduler" where
  "generate_locations ext self =
     (let self = self\<lparr>generate_calls := generate_calls self + 1\<rparr>
      in case cls self of
           HexSearch \<Rightarrow> (HexSearch_generate_locations ext self, self)
         | SpawnOnlyHexSearch \<Rightarrow> SpawnOnlyHexSearch_generate_locations ext self)"

subsection \<open>\<^verbatim>\<open>HexSearch.schedule\<close>\<close>

text \<open>Python's \<^verbatim>\<open>not self.locations\<close>: true of \<^verbatim>\<open>False\<close> and of the empty list.\<close>

definition not_locations :: "scan_item list option \<Rightarrow> bool" where
  "not_locations l = (case l of None \<Rightarrow> True | Some xs \<Rightarrow> xs = [])"

text \<open>
  \<^verbatim>\<open>for location in ...: self.queues[0].put(location); log.debug(...)\<close>
\<close>

fun put_locations :: "scan_item list \<Rightarrow> scheduler \<Rightarrow> unit result \<times> scheduler" where
  "put_locations [] self = (Inr (), self)"
| "put_locations (location # rest) self =
     (case queues self of
        [] \<Rightarrow> (Inl IndexError, self)
      | q # qs \<Rightarrow>
          put_locations rest
            (self\<lparr>queues := (q @ [location]) # qs,
                  log := log self @ [DEBUG_Added_location location]\<rparr>))"

definition no_location_warning :: log_record where
  "no_location_warning = WARNING ''Cannot schedule work until scan location has been set''"

text \<open>
  \<^verbatim>\<open>schedule\<close> returns \<^verbatim>\<open>None\<close> or raises; in both cases the object keeps what was
  assigned to it before.
\<close>

definition schedule :: "externals \<Rightarrow> scheduler \<Rightarrow> unit result \<times> scheduler" where
  "schedule ext self =
     (if scan_location self = None
      then (Inr (), self\<lparr>log := log self @ [no_location_warning]\<rparr>)
      else
        (case (if not_locations (locations self)
               then (case generate_locations ext self of
                       (Inl e, self) \<Rightarrow> (Inl e, self)
                     | (Inr locs, self) \<Rightarrow> (Inr (), self\<lparr>locations := Some locs\<rparr>))
               else (Inr (), self)) of
           (Inl e, self) \<Rightarrow> (Inl e, self)
         | (Inr u, self) \<Rightarrow>
             (case locations self of
                None \<Rightarrow> (Inl TypeError, self)
              | Some locs \<Rightarrow> put_locations locs self)))"

subsection \<open>The states a scheduler can be in\<close>

text \<open>
  A scheduler is made by \<^verbatim>\<open>__init__\<close>; the overseer then calls its four methods, and a
  worker takes the oldest item of a queue.
\<close>

inductive reachable :: "externals \<Rightarrow> scheduler \<Rightarrow> bool" for ext :: externals where
  init: "reachable ext (HexSearch_init c qs st a)"
| schedule: "reachable ext self \<Longrightarrow> reachable ext (snd (schedule ext self))"
| location_changed: "reachable ext self \<Longrightarrow> reachable ext (location_changed loc self)"
| scanning_paused: "reachable ext self \<Longrightarrow> reachable ext (scanning_paused self)"
| scanning_unpause: "reachable ext self \<Longrightarrow> reachable ext (scanning_unpause self)"
| worker_get: "reachable ext self \<Longrightarrow> i < length (queues self) \<Longrightarrow>
     reachable ext (self\<lparr>queues := (queues self)[i := tl (queues self ! i)]\<rparr>)"

subsection \<open>The plan a scheduler generates\<close>

text \<open>
  The list \<^verbatim>\<open>self._generate_locations()\<close> returns, as a function of what the method of
  the class reads: the externals, the step distance, the step limit and the location.
\<close>

definition plan_of :: "externals \<Rightarrow> scheduler_class \<Rightarrow> real \<Rightarrow> int \<Rightarrow> coordinate \<Rightarrow> scan_item list" where
  "plan_of ext c sd n loc =
     (case c of
        HexSearch \<Rightarrow> hex_locations (get_new_coords ext) sd n loc
      | SpawnOnlyHexSearch \<Rightarrow>
          filter (\<lambda>coords. any_spawnpoints_in_range ext (item_location coords)
                    (spawnpoints_of ext loc n))
            (hex_locations (get_new_coords ext) sd n loc))"

text \<open>
  What \<^verbatim>\<open>self._generate_locations()\<close> writes to the log: the warning of
  \<^verbatim>\<open>SpawnOnlyHexSearch\<close> when the store knows no spawnpoint, and nothing otherwise.
\<close>

definition generate_log :: "externals \<Rightarrow> scheduler \<Rightarrow> coordinate \<Rightarrow> log_record list" where
  "generate_log ext self loc =
     (if cls self = SpawnOnlyHexSearch \<and> spawnpoints_of ext loc (step_limit self) = {}
      then [no_spawnpoints_warning] else [])"

section \<open>Inputs for the examples\<close>

text \<open>
  A geo primitive on a flat grid (one unit per move, whatever the distance), a store that
  answers a bounding box from a fixed list of rows, and a metric of 100 m per grid unit.
\<close>

definition grid_coords :: geo where
  "grid_coords loc d b =
     (if b = NORTH then (lat loc + 1, lng loc, alt loc)
      else if b = SOUTH then (lat loc - 1, lng loc, alt loc)
      else if b = EAST then (lat loc, lng loc + 1, alt loc)
      else (lat loc, lng loc - 1, alt loc))"

definition grid_bounds :: "coordinate \<Rightarrow> int \<Rightarrow> real \<times> real \<times> real \<times> real" where
  "grid_bounds loc n =
     (lat loc + 2 * of_int n, lng loc + 2 * of_int n, lat loc - 2 * of_int n, lng loc - 2 * of_int n)"

definition grid_store :: "spawnpoint_row list \<Rightarrow> real \<Rightarrow> real \<Rightarrow> real \<Rightarrow> real \<Rightarrow> spawnpoint_row list" where
  "grid_store rows s w n e =
     filter (\<lambda>d. s \<le> latitude d \<and> latitude d \<le> n \<and> w \<le> longitude d \<and> longitude d \<le> e) rows"

definition grid_meters :: "coordinate \<Rightarrow> real \<times> real \<Rightarrow> real" where
  "grid_meters coords x = 100 * (\<bar>lat coords - fst x\<bar> + \<bar>lng coords - snd x\<bar>)"

definition grid_externals :: "spawnpoint_row list \<Rightarrow> externals" where
  "grid_externals rows =
     \<lparr>get_new_coords = grid_coords, hex_bounds = grid_bounds,
      get_spawnpoints = grid_store rows, distance_meters = grid_meters\<rparr>"

text \<open>
  A scheduler with one empty queue, for dense coverage (\<^verbatim>\<open>no_pokemon\<close> false), after
  \<^verbatim>\<open>location_changed(loc)\<close>.
\<close>

definition fresh_scheduler :: "scheduler_class \<Rightarrow> int \<Rightarrow> coordinate \<Rightarrow> scheduler" where
  "fresh_scheduler c n loc =
     location_changed loc
       (HexSearch_init c [[]] [] \<lparr>args_no_pokemon = False, args_step_limit = n\<rparr>)"


section \<open>The spiral: how many points, and which\<close>

lemma length_step1: "length (snd (step1 g d b w)) = Suc (length (snd w))"
  by (simp add: step1_def Let_def)

lemma length_step2: "length (snd (step2 g d1 b1 d2 b2 w)) = Suc (length (snd w))"
  by (simp add: step2_def Let_def)

lemma length_funpow:
  fixes f :: "'a \<times> 'b list \<Rightarrow> 'a \<times> 'b list"
  assumes "\<And>w. length (snd (f w)) = Suc (length (snd w))"
  shows "length (snd ((f ^^ k) w)) = length (snd w) + k"
  by (induction k) (simp_all add: assms)

lemma length_for_range_step1:
  "length (snd (for_range n (step1 g d b) w)) = length (snd w) + nat n"
  unfolding for_range_def by (rule length_funpow) (rule length_step1)

lemma length_for_range_step2:
  "length (snd (for_range n (step2 g d1 b1 d2 b2) w)) = length (snd w) + nat n"
  unfolding for_range_def by (rule length_funpow) (rule length_step2)

lemmas walk_lengths = length_step1 length_step2 length_for_range_step1 length_for_range_step2

lemma length_upper_ring:
  "length (snd (upper_ring g xd yd ring w)) = length (snd w) + 1 + 3 * nat ring"
  by (simp add: upper_ring_def Let_def walk_lengths)

lemma length_lower_ring:
  assumes "1 \<le> ring"
  shows "int (length (snd (lower_ring g xd yd ring w))) =
           int (length (snd w)) + (if ring = 1 then 1 else 3 * ring - 1)"
  using assms by (simp add: lower_ring_def Let_def walk_lengths)

lemma length_upper_part:
  assumes "0 \<le> ring" and "ring \<le> n"
  shows "2 * int (length (snd (upper_part g xd yd n ring w))) =
           2 * int (length (snd w)) + 2 * (n - ring)
             + 3 * (n * (n - 1) - ring * (ring - 1))"
  using assms
proof (induction g xd yd n ring w rule: upper_part.induct)
  case (1 g xd yd n ring w)
  show ?case
  proof (cases "ring < n")
    case True
    have "2 * int (length (snd (upper_part g xd yd n (ring + 1)
                 (upper_ring g xd yd ring w)))) =
          2 * int (length (snd (upper_ring g xd yd ring w))) + 2 * (n - (ring + 1))
             + 3 * (n * (n - 1) - (ring + 1) * (ring + 1 - 1))"
      using "1.IH" [OF True] True "1.prems" by simp
    moreover have "int (length (snd (upper_ring g xd yd ring w))) =
        int (length (snd w)) + 1 + 3 * ring"
      using "1.prems" by (simp add: length_upper_ring)
    ultimately show ?thesis
      using True by (simp add: upper_part.simps [of g xd yd n ring w] algebra_simps)
  next
    case False
    with "1.prems" have "ring = n" by simp
    then show ?thesis
      by (simp add: upper_part.simps [of g xd yd n n w])
  qed
qed

lemma length_lower_part:
  assumes "1 \<le> ring"
  shows "2 * int (length (snd (lower_part g xd yd ring w))) =
           2 * int (length (snd w)) + 3 * ring * ring + ring - 2"
  using assms
proof (induction g xd yd ring w rule: lower_part.induct)
  case (1 g xd yd ring w)
  have pos: "ring > 0" using "1.prems" by simp
  show ?case
  proof (cases "ring = 1")
    case True
    have "lower_part g xd yd 1 w = lower_ring g xd yd 1 w"
      by (simp add: lower_part.simps [of g xd yd 1 w] lower_part.simps [of g xd yd 0])
    then show ?thesis
      using True by (simp add: length_lower_ring)
  next
    case False
    with "1.prems" have ge: "1 \<le> ring - 1" by simp
    have "2 * int (length (snd (lower_part g xd yd (ring - 1) (lower_ring g xd yd ring w)))) =
          2 * int (length (snd (lower_ring g xd yd ring w)))
            + 3 * (ring - 1) * (ring - 1) + (ring - 1) - 2"
      using "1.IH" [OF pos ge] .
    moreover have "int (length (snd (lower_ring g xd yd ring w))) =
        int (length (snd w)) + (3 * ring - 1)"
      using "1.prems" False by (simp add: length_lower_ring)
    ultimately show ?thesis
      using pos by (simp add: lower_part.simps [of g xd yd ring w] algebra_simps)
  qed
qed

lemma length_spiral_results:
  assumes "1 \<le> n"
  shows "int (length (spiral_results g sd n loc)) =
           1 + 3 * n * (n - 1)"
proof (cases "n = 1")
  case True
  then show ?thesis by (simp add: spiral_results_def)
next
  case False
  with assms have gt: "1 < n" by simp
  define xd where "xd = sqrt 3 * sd"
  define yd where "yd = 3 * (sd / 2)"
  define w1 where "w1 = upper_part g xd yd n 1 (loc, [(lat loc, lng loc, 0)])"
  define w2 where "w2 = step2 g yd SOUTH (xd / 2)
      (if (n - 1) mod 2 = 1 then WEST else EAST) w1"
  have res: "spiral_results g sd n loc =
      snd (lower_part g xd yd (n - 1) w2)"
    using gt by (simp add: spiral_results_def Let_def xd_def yd_def w1_def w2_def)
  have "2 * int (length (snd w1)) = 2 + 2 * (n - 1) + 3 * (n * (n - 1))"
    unfolding w1_def using gt by (subst length_upper_part) simp_all
  moreover have "int (length (snd w2)) = int (length (snd w1)) + 1"
    by (simp add: w2_def length_step2)
  moreover have "2 * int (length (snd (lower_part g xd yd (n - 1) w2))) =
      2 * int (length (snd w2)) + 3 * (n - 1) * (n - 1) + (n - 1) - 2"
    using gt by (subst length_lower_part) simp_all
  ultimately have "2 * int (length (spiral_results g sd n loc)) =
      2 * (1 + 3 * n * (n - 1))"
    unfolding res by (simp add: algebra_simps)
  then show ?thesis by simp
qed

text \<open>
  A property of \<^verbatim>\<open>results\<close> that holds of the first point and that appending a point of
  altitude 0 keeps, holds of the whole spiral.
\<close>

lemma funpow_walk_invariant:
  fixes f :: "walk \<Rightarrow> walk"
  assumes "\<And>w. I (snd w) \<Longrightarrow> I (snd (f w))" and "I (snd w)"
  shows "I (snd ((f ^^ k) w))"
  by (induction k) (simp_all add: assms)

lemma step1_invariant:
  assumes "\<And>rs a b. I rs \<Longrightarrow> I (rs @ [(a, b, 0)])" and "I (snd w)"
  shows "I (snd (step1 g d b w))"
  using assms by (simp add: step1_def Let_def)

lemma step2_invariant:
  assumes "\<And>rs a b. I rs \<Longrightarrow> I (rs @ [(a, b, 0)])" and "I (snd w)"
  shows "I (snd (step2 g d1 b1 d2 b2 w))"
  using assms by (simp add: step2_def Let_def)

lemma for_range_step1_invariant:
  assumes "\<And>rs a b. I rs \<Longrightarrow> I (rs @ [(a, b, 0)])" and "I (snd w)"
  shows "I (snd (for_range k (step1 g d b) w))"
  unfolding for_range_def
  by (rule funpow_walk_invariant [where I = I]) (auto intro: step1_invariant assms)

lemma for_range_step2_invariant:
  assumes "\<And>rs a b. I rs \<Longrightarrow> I (rs @ [(a, b, 0)])" and "I (snd w)"
  shows "I (snd (for_range k (step2 g d1 b1 d2 b2) w))"
  unfolding for_range_def
  by (rule funpow_walk_invariant [where I = I]) (auto intro: step2_invariant assms)

lemma upper_ring_invariant:
  assumes app: "\<And>rs a b. I rs \<Longrightarrow> I (rs @ [(a, b, 0)])" and "I (snd w)"
  shows "I (snd (upper_ring g xd yd ring w))"
  unfolding upper_ring_def Let_def
  by (intro for_range_step2_invariant [where I = I] for_range_step1_invariant [where I = I]
        step1_invariant [where I = I] app assms(2))

lemma lower_ring_invariant:
  assumes app: "\<And>rs a b. I rs \<Longrightarrow> I (rs @ [(a, b, 0)])" and "I (snd w)"
  shows "I (snd (lower_ring g xd yd ring w))"
proof (cases "ring = 1")
  case True
  then show ?thesis
    by (simp add: lower_ring_def step1_invariant [where I = I] assms)
next
  case False
  then show ?thesis
    unfolding lower_ring_def Let_def
    by (simp only: if_False)
      (intro for_range_step2_invariant [where I = I] for_range_step1_invariant [where I = I]
        step1_invariant [where I = I] app assms(2))
qed

lemma upper_part_invariant:
  assumes app: "\<And>rs a b. I rs \<Longrightarrow> I (rs @ [(a, b, 0)])"
  shows "I (snd w) \<Longrightarrow> I (snd (upper_part g xd yd n ring w))"
proof (induction g xd yd n ring w rule: upper_part.induct)
  case (1 g xd yd n ring w)
  show ?case
  proof (cases "ring < n")
    case True
    have "I (snd (upper_ring g xd yd ring w))"
      using app "1.prems" by (rule upper_ring_invariant)
    with "1.IH" [OF True] True show ?thesis
      by (simp add: upper_part.simps [of g xd yd n ring w])
  next
    case False
    with "1.prems" show ?thesis
      by (simp add: upper_part.simps [of g xd yd n ring w])
  qed
qed

lemma lower_part_invariant:
  assumes app: "\<And>rs a b. I rs \<Longrightarrow> I (rs @ [(a, b, 0)])"
  shows "I (snd w) \<Longrightarrow> I (snd (lower_part g xd yd ring w))"
proof (induction g xd yd ring w rule: lower_part.induct)
  case (1 g xd yd ring w)
  show ?case
  proof (cases "ring > 0")
    case True
    have "I (snd (lower_ring g xd yd ring w))"
      using app "1.prems" by (rule lower_ring_invariant)
    with "1.IH" [OF True] True show ?thesis
      by (simp add: lower_part.simps [of g xd yd ring w])
  next
    case False
    with "1.prems" show ?thesis
      by (simp add: lower_part.simps [of g xd yd ring w])
  qed
qed

lemma spiral_results_invariant:
  assumes app: "\<And>rs a b. I rs \<Longrightarrow> I (rs @ [(a, b, 0)])"
    and start: "I [(lat loc, lng loc, 0)]"
  shows "I (spiral_results g sd n loc)"
proof (cases "n > 1")
  case True
  define xd where "xd = sqrt 3 * sd"
  define yd where "yd = 3 * (sd / 2)"
  define w1 where "w1 = upper_part g xd yd n 1 (loc, [(lat loc, lng loc, 0)])"
  define w2 where "w2 = step2 g yd SOUTH (xd / 2)
      (if (n - 1) mod 2 = 1 then WEST else EAST) w1"
  have res: "spiral_results g sd n loc = snd (lower_part g xd yd (n - 1) w2)"
    using True by (simp add: spiral_results_def Let_def xd_def yd_def w1_def w2_def)
  have "I (snd w1)"
    unfolding w1_def by (rule upper_part_invariant [where I = I, OF app]) (simp_all add: start)
  then have "I (snd w2)"
    unfolding w2_def using app by (intro step2_invariant [where I = I])
  then show ?thesis
    unfolding res using app by (intro lower_part_invariant [where I = I])
next
  case False
  then show ?thesis by (simp add: spiral_results_def start)
qed

lemma spiral_results_alt:
  "\<forall>l \<in> set (spiral_results g sd n loc). alt l = 0"
  by (rule spiral_results_invariant [where I = "\<lambda>rs. \<forall>l \<in> set rs. alt l = 0"])
    (auto simp: alt_def)

lemma spiral_results_head:
  "\<exists>rest. spiral_results g sd n loc = (lat loc, lng loc, 0) # rest"
  by (rule spiral_results_invariant
        [where I = "\<lambda>rs. \<exists>rest. rs = (lat loc, lng loc, 0) # rest"]) auto

lemma slice_rotation:
  assumes "k > 0"
  shows "slice_from (- k) xs @ slice_upto (- k) xs =
         drop (length xs - nat k) xs @ take (length xs - nat k) xs"
proof -
  have "slice_bound (- k) xs = length xs - nat k"
    using assms by (simp add: slice_bound_def Let_def)
  then show ?thesis by (simp add: slice_from_def slice_upto_def)
qed

lemma mset_drop_take: "mset (drop k xs @ take k xs) = mset xs"
proof -
  have "mset (drop k xs @ take k xs) = mset (take k xs @ drop k xs)"
    by (simp only: mset_append add.commute)
  also have "\<dots> = mset xs"
    by (simp only: append_take_drop_id)
  finally show ?thesis .
qed

lemma mset_center_nugget: "mset (center_nugget n rs) = mset rs"
  by (simp add: center_nugget_def slice_from_def slice_upto_def mset_drop_take del: mset_append)

lemma set_center_nugget: "set (center_nugget n rs) = set rs"
  using mset_center_nugget [of n rs] by (metis set_mset_mset)

lemma length_center_nugget: "length (center_nugget n rs) = length rs"
  using mset_center_nugget [of n rs] by (metis size_mset)

lemma length_enumerate_from: "length (enumerate_from s xs) = length xs"
  by (induction xs arbitrary: s) simp_all

lemma nth_enumerate_from:
  "i < length xs \<Longrightarrow> enumerate_from s xs ! i = (s + int i, xs ! i)"
proof (induction xs arbitrary: s i)
  case Nil
  then show ?case by simp
next
  case (Cons x xs)
  then show ?case by (cases i) simp_all
qed

lemma length_locationsZeroed: "length (locationsZeroed rs) = length rs"
  by (simp add: locationsZeroed_def length_enumerate_from)

lemma nth_locationsZeroed:
  "i < length rs \<Longrightarrow>
     locationsZeroed rs ! i = (1 + int i, (lat (rs ! i), lng (rs ! i), 0), 0, 0)"
  by (simp add: locationsZeroed_def length_enumerate_from nth_enumerate_from)

lemma map_item_location_locationsZeroed:
  assumes "\<forall>l \<in> set rs. alt l = 0"
  shows "map item_location (locationsZeroed rs) = rs"
proof (rule nth_equalityI)
  show "length (map item_location (locationsZeroed rs)) = length rs"
    by (simp add: length_locationsZeroed)
next
  fix i assume "i < length (map item_location (locationsZeroed rs))"
  then have i: "i < length rs" by (simp add: length_locationsZeroed)
  then have "alt (rs ! i) = 0" using assms by simp
  then have "(lat (rs ! i), lng (rs ! i), 0) = rs ! i"
    by (simp add: lat_def lng_def alt_def prod_eq_iff)
  with i show "map item_location (locationsZeroed rs) ! i = rs ! i"
    by (simp add: length_locationsZeroed nth_locationsZeroed item_location_def)
qed

lemma item_locations_hex_locations:
  "map item_location (hex_locations g sd n loc) = center_nugget n (spiral_results g sd n loc)"
  unfolding hex_locations_def
  by (rule map_item_location_locationsZeroed) (simp add: set_center_nugget spiral_results_alt)

lemma length_hex_locations:
  "length (hex_locations g sd n loc) = length (spiral_results g sd n loc)"
  by (simp add: hex_locations_def length_locationsZeroed length_center_nugget)

lemmas bearings = NORTH_def EAST_def SOUTH_def WEST_def
lemmas walk_defs = step1_def step2_def for_range_def upper_ring_def lower_ring_def
  upper_part.simps lower_part.simps lat_def lng_def alt_def grid_coords_def bearings

lemma spiral_2: "spiral_results grid_coords sd 2 (0, 0, 0) =
  [(0,0,0), (0,-1,0), (1,0,0), (1,1,0), (0,2,0), (-1,1,0), (-1,0,0)]"
  by (simp add: spiral_results_def walk_defs Let_def)

lemma spiral_3: "length (spiral_results grid_coords sd 3 (0, 0, 0)) = 19"
  by (simp add: spiral_results_def walk_defs Let_def eval_nat_numeral)



text \<open>
  Claim C1. For every center location and every step limit \<open>n \<ge> 1\<close>, the list
  \<^verbatim>\<open>results\<close> holds exactly \<open>1 + 3 * n * (n - 1)\<close> points before the rotation; the
  rotation yields a permutation of that list, and so do the locations of the items the
  generator returns.
\<close>

theorem C1_spiral_count_and_rotation:
  assumes "1 \<le> n"
  shows "int (length (spiral_results g sd n loc)) = 1 + 3 * n * (n - 1) \<and>
         mset (center_nugget n (spiral_results g sd n loc)) = mset (spiral_results g sd n loc) \<and>
         mset (map item_location (hex_locations g sd n loc)) = mset (spiral_results g sd n loc)"
  using assms
  by (simp add: length_spiral_results mset_center_nugget item_locations_hex_locations)

theorem C1_spiral_count_and_rotation_witness:
  "(1::int) \<le> 3 \<and>
   int (length (spiral_results grid_coords 0.07 3 (0, 0, 0))) = 19 \<and>
   mset (center_nugget 3 (spiral_results grid_coords 0.07 3 (0, 0, 0))) =
     mset (spiral_results grid_coords 0.07 3 (0, 0, 0)) \<and>
   mset (map item_location (hex_locations grid_coords 0.07 3 (0, 0, 0))) =
     mset (spiral_results grid_coords 0.07 3 (0, 0, 0))"
  using C1_spiral_count_and_rotation [of 3 grid_coords "0.07" "(0, 0, 0)"] by simp

lemma length_spiral_ge_37:
  assumes "3 < n"
  shows "37 \<le> length (spiral_results g sd n loc)"
proof -
  have "4 * 3 \<le> n * (n - 1)"
    using assms by (intro mult_mono) simp_all
  moreover have "int (length (spiral_results g sd n loc)) = 1 + 3 * (n * (n - 1))"
    using assms by (simp add: length_spiral_results)
  ultimately show ?thesis by linarith
qed

text \<open>
  Claim C2. The locations of the returned plan are \<^verbatim>\<open>rawPlan[-2:] + rawPlan[:-2]\<close> when
  the step limit is 3, \<^verbatim>\<open>rawPlan[-7:] + rawPlan[:-7]\<close> when it is above 3, and
  \<^verbatim>\<open>rawPlan\<close> itself when it is below 3. The second half resolves the slices: the raw
  plan has 19 points for step limit 3 and at least 37 above, so the last 2 (or 7) points
  come first and the others follow in their order.
\<close>

theorem C2_rotation_law:
  "map item_location (hex_locations g sd n loc) =
     (if n = 3
      then slice_from (- 2) (spiral_results g sd n loc) @ slice_upto (- 2) (spiral_results g sd n loc)
      else if n > 3
      then slice_from (- 7) (spiral_results g sd n loc) @ slice_upto (- 7) (spiral_results g sd n loc)
      else spiral_results g sd n loc) \<and>
   (if n = 3
    then length (spiral_results g sd n loc) = 19 \<and>
      map item_location (hex_locations g sd n loc) =
        drop 17 (spiral_results g sd n loc) @ take 17 (spiral_results g sd n loc)
    else if n > 3
    then 37 \<le> length (spiral_results g sd n loc) \<and>
      map item_location (hex_locations g sd n loc) =
        drop (length (spiral_results g sd n loc) - 7) (spiral_results g sd n loc) @
        take (length (spiral_results g sd n loc) - 7) (spiral_results g sd n loc)
    else map item_location (hex_locations g sd n loc) = spiral_results g sd n loc)"
proof -
  have len3: "length (spiral_results g sd 3 loc) = 19"
    using length_spiral_results [of 3 g sd loc] by simp
  have first: "map item_location (hex_locations g sd n loc) =
     (if n = 3
      then slice_from (- 2) (spiral_results g sd n loc) @ slice_upto (- 2) (spiral_results g sd n loc)
      else if n > 3
      then slice_from (- 7) (spiral_results g sd n loc) @ slice_upto (- 7) (spiral_results g sd n loc)
      else spiral_results g sd n loc)"
    by (simp add: item_locations_hex_locations center_nugget_def)
  show ?thesis
  proof (cases "n = 3")
    case True
    with first len3 show ?thesis by (simp add: slice_rotation)
  next
    case False
    show ?thesis
    proof (cases "n > 3")
      case True
      with first length_spiral_ge_37 [OF True, of g sd loc] show ?thesis
        by (simp add: slice_rotation)
    next
      case False
      with \<open>n \<noteq> 3\<close> first show ?thesis by simp
    qed
  qed
qed

theorem C2_rotation_law_witness:
  "map item_location (hex_locations grid_coords 0.07 3 (0, 0, 0)) =
     slice_from (- 2) (spiral_results grid_coords 0.07 3 (0, 0, 0)) @
     slice_upto (- 2) (spiral_results grid_coords 0.07 3 (0, 0, 0)) \<and>
   length (spiral_results grid_coords 0.07 3 (0, 0, 0)) = 19 \<and>
   map item_location (hex_locations grid_coords 0.07 3 (0, 0, 0)) =
     drop 17 (spiral_results grid_coords 0.07 3 (0, 0, 0)) @
     take 17 (spiral_results grid_coords 0.07 3 (0, 0, 0))"
  using C2_rotation_law [of grid_coords "0.07" 3 "(0, 0, 0)"]
  unfolding if_P [OF refl] .

section \<open>The methods of the scheduler\<close>

lemma drain_empty: "drain q = []"
proof (induction q)
  case Nil
  show ?case by (simp add: drain.simps [of "[]"] get_nowait_def)
next
  case (Cons x q)
  then show ?case by (simp add: drain.simps [of "x # q"] get_nowait_def)
qed

lemma empty_queues_eq: "empty_queues self = self\<lparr>queues := map (\<lambda>queue. []) (queues self)\<rparr>"
proof -
  have "map (\<lambda>queue. if queue \<noteq> [] then drain queue else queue) (queues self) =
        map (\<lambda>queue. []) (queues self)"
    by (rule map_cong) (simp_all add: drain_empty)
  then show ?thesis by (simp add: empty_queues_def)
qed

lemma location_changed_eq:
  "location_changed new_location self =
     self\<lparr>scan_location := Some new_location, queues := map (\<lambda>queue. []) (queues self),
          locations := None\<rparr>"
  by (simp add: location_changed_def empty_queues_eq Let_def)

lemma put_locations_queue:
  assumes "queues self = q # qs"
  shows "put_locations locs self =
           (Inr (), self\<lparr>queues := (q @ locs) # qs,
                         log := log self @ map DEBUG_Added_location locs\<rparr>)"
  using assms
proof (induction locs arbitrary: self q)
  case Nil
  then show ?case by simp
next
  case (Cons location rest)
  let ?self = "self\<lparr>queues := (q @ [location]) # qs,
                      log := log self @ [DEBUG_Added_location location]\<rparr>"
  have "queues ?self = (q @ [location]) # qs" by simp
  from Cons.IH [OF this] Cons.prems show ?case by simp
qed

lemma put_locations_no_queue:
  assumes "queues self = []"
  shows "put_locations locs self = (if locs = [] then Inr () else Inl IndexError, self)"
  using assms by (cases locs) simp_all

lemma HexSearch_generate_locations_Some:
  assumes "scan_location self = Some loc"
  shows "HexSearch_generate_locations ext self =
           Inr (hex_locations (get_new_coords ext) (step_distance self) (step_limit self) loc)"
  using assms by (simp add: HexSearch_generate_locations_def)

lemma generate_locations_Some:
  assumes "scan_location self = Some loc"
  shows "generate_locations ext self =
           (Inr (plan_of ext (cls self) (step_distance self) (step_limit self) loc),
            self\<lparr>generate_calls := generate_calls self + 1,
                 log := log self @ generate_log ext self loc\<rparr>)"
proof (cases "cls self")
  case HexSearch
  with assms show ?thesis
    by (simp add: generate_locations_def HexSearch_generate_locations_def plan_of_def
        generate_log_def Let_def)
next
  case SpawnOnlyHexSearch
  with assms show ?thesis
    by (simp add: generate_locations_def SpawnOnlyHexSearch_generate_locations_def
        HexSearch_generate_locations_def plan_of_def generate_log_def Let_def)
qed

lemma schedule_unset:
  assumes "scan_location self = None"
  shows "schedule ext self = (Inr (), self\<lparr>log := log self @ [no_location_warning]\<rparr>)"
  using assms by (simp add: schedule_def)

lemma schedule_generate:
  assumes "scan_location self = Some loc" and "not_locations (locations self)"
  shows "schedule ext self =
     put_locations (plan_of ext (cls self) (step_distance self) (step_limit self) loc)
       (self\<lparr>generate_calls := generate_calls self + 1,
             log := log self @ generate_log ext self loc,
             locations := Some (plan_of ext (cls self) (step_distance self) (step_limit self) loc)\<rparr>)"
  using assms by (simp add: schedule_def generate_locations_Some)

lemma schedule_cached:
  assumes "scan_location self = Some loc" and "locations self = Some locs" and "locs \<noteq> []"
  shows "schedule ext self = put_locations locs self"
  using assms by (simp add: schedule_def not_locations_def)

lemma put_locations_frame:
  "generate_calls (snd (put_locations locs self)) = generate_calls self \<and>
   locations (snd (put_locations locs self)) = locations self \<and>
   scan_location (snd (put_locations locs self)) = scan_location self \<and>
   cls (snd (put_locations locs self)) = cls self \<and>
   step_distance (snd (put_locations locs self)) = step_distance self \<and>
   step_limit (snd (put_locations locs self)) = step_limit self"
proof (cases "queues self")
  case Nil
  then show ?thesis by (simp add: put_locations_no_queue)
next
  case (Cons q qs)
  then show ?thesis by (simp add: put_locations_queue)
qed

lemma schedule_after_location_changed:
  "generate_calls (snd (schedule ext (location_changed new_location self))) =
     generate_calls self + 1"
proof -
  let ?self = "location_changed new_location self"
  have "scan_location ?self = Some new_location" and "not_locations (locations ?self)"
    and "generate_calls ?self = generate_calls self"
    by (simp_all add: location_changed_eq not_locations_def)
  then show ?thesis
    by (simp add: schedule_generate [where loc = new_location] put_locations_frame)
qed

text \<open>
  Claim C3. For every scheduler and every new location, \<^verbatim>\<open>location_changed\<close> stores the
  location, leaves every queue empty and sets \<^verbatim>\<open>locations\<close> back to \<^verbatim>\<open>False\<close>
  without a call of the generator; the next \<^verbatim>\<open>schedule\<close> then calls
  \<^verbatim>\<open>_generate_locations\<close> once more. Nothing is asked of the old location, so this holds
  also when the new location is the old one.
\<close>

theorem C3_location_changed:
  "scan_location (location_changed new_location self) = Some new_location \<and>
   queues (location_changed new_location self) = map (\<lambda>queue. []) (queues self) \<and>
   locations (location_changed new_location self) = None \<and>
   generate_calls (location_changed new_location self) = generate_calls self \<and>
   generate_calls (snd (schedule ext (location_changed new_location self))) =
     generate_calls self + 1"
  using schedule_after_location_changed [of ext new_location self]
  by (simp add: location_changed_eq)

text \<open>
  Claim C8. With no location set, \<^verbatim>\<open>schedule\<close> returns normally, writes the warning,
  makes no call of \<^verbatim>\<open>_generate_locations\<close> and leaves every queue as it was; the log is
  the only field that changes.
\<close>

theorem C8_schedule_without_location:
  assumes "scan_location self = None"
  shows "fst (schedule ext self) = Inr () \<and>
         log (snd (schedule ext self)) =
           log self @ [WARNING ''Cannot schedule work until scan location has been set''] \<and>
         generate_calls (snd (schedule ext self)) = generate_calls self \<and>
         queues (snd (schedule ext self)) = queues self \<and>
         snd (schedule ext self) = self\<lparr>log := log (snd (schedule ext self))\<rparr>"
  using assms by (simp add: schedule_unset no_location_warning_def)

theorem C8_schedule_without_location_witness:
  "scan_location (HexSearch_init HexSearch [[]] [] \<lparr>args_no_pokemon = False, args_step_limit = 2\<rparr>) = None \<and>
   fst (schedule (grid_externals []) (HexSearch_init HexSearch [[]] [] \<lparr>args_no_pokemon = False, args_step_limit = 2\<rparr>)) = Inr () \<and>
   generate_calls (snd (schedule (grid_externals []) (HexSearch_init HexSearch [[]] [] \<lparr>args_no_pokemon = False, args_step_limit = 2\<rparr>))) = 0 \<and>
   queues (snd (schedule (grid_externals []) (HexSearch_init HexSearch [[]] [] \<lparr>args_no_pokemon = False, args_step_limit = 2\<rparr>))) = [[]]"
  using C8_schedule_without_location
    [of "HexSearch_init HexSearch [[]] [] \<lparr>args_no_pokemon = False, args_step_limit = 2\<rparr>"
      "grid_externals []"]
  by (simp add: HexSearch_init_def)

text \<open>
  Claim C9, as amended. With step limit 1 the generator returns exactly one item, of step 1
  and with both times 0. Its location is the latitude and the longitude of the center with
  altitude 0: the center itself when the altitude of the center is 0.
\<close>

theorem C9_single_point:
  assumes "step_limit self = 1" and "scan_location self = Some loc"
  shows "HexSearch_generate_locations ext self = Inr [(1, (lat loc, lng loc, 0), 0, 0)] \<and>
         (alt loc = 0 \<longrightarrow> item_location (1, (lat loc, lng loc, 0), 0, 0) = loc)"
  using assms
  by (simp add: HexSearch_generate_locations_def hex_locations_def spiral_results_def
      center_nugget_def locationsZeroed_def item_location_def lat_def lng_def alt_def prod_eq_iff)

theorem C9_single_point_witness:
  "step_limit (fresh_scheduler HexSearch 1 (40, - 75, 0)) = 1 \<and>
   scan_location (fresh_scheduler HexSearch 1 (40, - 75, 0)) = Some (40, - 75, 0) \<and>
   HexSearch_generate_locations (grid_externals []) (fresh_scheduler HexSearch 1 (40, - 75, 0)) =
     Inr [(1, (40, - 75, 0), 0, 0)]"
  using C9_single_point
    [of "fresh_scheduler HexSearch 1 (40, - 75, 0)" "(40, - 75, 0)" "grid_externals []"]
  by (simp add: fresh_scheduler_def location_changed_eq HexSearch_init_def lat_def lng_def)

text \<open>
  Claim C9 as it is stated asks for the location of the item to be the center. Line 115
  writes 0 for the altitude, so a center of altitude 5 gives an item that is not at the
  center.
\<close>

theorem C9_location_counterexample:
  "HexSearch_generate_locations (grid_externals []) (fresh_scheduler HexSearch 1 (40, - 75, 5)) =
     Inr [(1, (40, - 75, 0), 0, 0)] \<and>
   item_location (1, (40, - 75, 0), 0, 0) \<noteq> (40, - 75, 5)"
  by (simp add: HexSearch_generate_locations_def hex_locations_def spiral_results_def
      center_nugget_def locationsZeroed_def item_location_def lat_def lng_def
      fresh_scheduler_def location_changed_eq HexSearch_init_def)

lemma hex_locations_grid_2:
  "hex_locations grid_coords sd 2 (0, 0, 0) =
     [(1, (0, 0, 0), 0, 0), (2, (0, - 1, 0), 0, 0), (3, (1, 0, 0), 0, 0), (4, (1, 1, 0), 0, 0),
      (5, (0, 2, 0), 0, 0), (6, (- 1, 1, 0), 0, 0), (7, (- 1, 0, 0), 0, 0)]"
  by (simp add: hex_locations_def spiral_2 center_nugget_def locationsZeroed_def lat_def lng_def)

lemma spawnpoints_of_grid_one:
  "spawnpoints_of (grid_externals [\<lparr>latitude = 1, longitude = 1\<rparr>]) (0, 0, 0) 2 = {(1, 1)}"
  by (simp add: spawnpoints_of_def grid_externals_def grid_bounds_def grid_store_def
      lat_def lng_def)

lemma spawnpoints_of_grid_none:
  "spawnpoints_of (grid_externals []) loc n = {}"
  by (simp add: spawnpoints_of_def grid_externals_def grid_bounds_def grid_store_def
      split: prod.splits)

lemma plan_of_grid_one:
  "plan_of (grid_externals [\<lparr>latitude = 1, longitude = 1\<rparr>]) SpawnOnlyHexSearch sd 2 (0, 0, 0) =
     [(4, (1, 1, 0), 0, 0)]"
proof -
  have g: "get_new_coords (grid_externals [\<lparr>latitude = 1, longitude = 1\<rparr>]) = grid_coords"
    by (simp add: grid_externals_def)
  have m: "distance_meters (grid_externals [\<lparr>latitude = 1, longitude = 1\<rparr>]) = grid_meters"
    by (simp add: grid_externals_def)
  show ?thesis
    unfolding plan_of_def scheduler_class.case g hex_locations_grid_2 spawnpoints_of_grid_one
    by (simp add: any_spawnpoints_in_range_def m grid_meters_def item_location_def
        lat_def lng_def)
qed

lemma plan_of_grid_none: "plan_of (grid_externals []) SpawnOnlyHexSearch sd n loc = []"
  by (simp add: plan_of_def any_spawnpoints_in_range_def spawnpoints_of_grid_none)

lemma fresh_scheduler_eq:
  "fresh_scheduler c n loc =
     \<lparr>cls = c, queues = [[]], status = [],
      args = \<lparr>args_no_pokemon = False, args_step_limit = n\<rparr>,
      scan_location = Some loc, step_distance = 0.070, step_limit = n,
      locations = None, log = [], generate_calls = 0\<rparr>"
  by (simp add: fresh_scheduler_def location_changed_eq HexSearch_init_def)

lemma SpawnOnly_generate_locations_Some:
  assumes "scan_location self = Some loc"
  shows "SpawnOnlyHexSearch_generate_locations ext self =
     (Inr (plan_of ext SpawnOnlyHexSearch (step_distance self) (step_limit self) loc),
      self\<lparr>log := log self @
        (if spawnpoints_of ext loc (step_limit self) = {} then [no_spawnpoints_warning] else [])\<rparr>)"
  using assms
  by (simp add: SpawnOnlyHexSearch_generate_locations_def HexSearch_generate_locations_def
      plan_of_def Let_def)

subsection \<open>The steps of a plan\<close>

lemma hex_locations_nth:
  assumes "i < length (hex_locations g sd n loc)"
  shows "item_step (hex_locations g sd n loc ! i) = int i + 1 \<and>
         appears_seconds (hex_locations g sd n loc ! i) = 0 \<and>
         disappears_seconds (hex_locations g sd n loc ! i) = 0"
  using assms
  by (simp add: hex_locations_def length_locationsZeroed nth_locationsZeroed
      item_step_def appears_seconds_def disappears_seconds_def)

lemma hex_locations_times:
  assumes "item \<in> set (hex_locations g sd n loc)"
  shows "appears_seconds item = 0 \<and> disappears_seconds item = 0"
proof -
  from assms obtain i where "i < length (hex_locations g sd n loc)"
    and "hex_locations g sd n loc ! i = item"
    by (auto simp: in_set_conv_nth)
  with hex_locations_nth [of i g sd n loc] show ?thesis by simp
qed

lemma hex_locations_position:
  assumes "item \<in> set (hex_locations g sd n loc)"
  shows "1 \<le> item_step item \<and> item_step item \<le> int (length (hex_locations g sd n loc)) \<and>
         hex_locations g sd n loc ! nat (item_step item - 1) = item"
proof -
  from assms obtain i where i: "i < length (hex_locations g sd n loc)"
    and item: "hex_locations g sd n loc ! i = item"
    by (auto simp: in_set_conv_nth)
  from hex_locations_nth [OF i] item have "item_step item = int i + 1" by simp
  with i item show ?thesis by simp
qed

lemma hex_locations_steps_increasing:
  "sorted_wrt (\<lambda>a b. item_step a < item_step b) (hex_locations g sd n loc)"
  by (simp add: sorted_wrt_iff_nth_less hex_locations_nth)

lemma plan_of_SpawnOnly_steps_increasing:
  "sorted_wrt (<) (map item_step (plan_of ext SpawnOnlyHexSearch sd n loc))"
  unfolding plan_of_def scheduler_class.case sorted_wrt_map
  by (rule sorted_wrt_filter) (rule hex_locations_steps_increasing)

text \<open>
  Claim C7, as amended. In the plan of \<^verbatim>\<open>HexSearch._generate_locations\<close> the item at
  position \<open>i\<close> (counted from 1) has step \<open>i\<close>, and both times of every item are 0. The
  plan of \<^verbatim>\<open>SpawnOnlyHexSearch._generate_locations\<close> is a subsequence of that plan whose
  items are unchanged: the step of an item is its position in the plan before the filter,
  so the steps grow strictly along the plan, and both times are 0.
\<close>

theorem C7_steps:
  assumes "scan_location self = Some loc"
  shows "\<exists>plain kept self'.
     HexSearch_generate_locations ext self = Inr plain \<and>
     (\<forall>i < length plain. item_step (plain ! i) = int i + 1) \<and>
     (\<forall>item \<in> set plain. appears_seconds item = 0 \<and> disappears_seconds item = 0) \<and>
     SpawnOnlyHexSearch_generate_locations ext self = (Inr kept, self') \<and>
     subseq kept plain \<and>
     (\<forall>item \<in> set kept. 1 \<le> item_step item \<and> item_step item \<le> int (length plain) \<and>
        plain ! nat (item_step item - 1) = item \<and>
        appears_seconds item = 0 \<and> disappears_seconds item = 0) \<and>
     sorted_wrt (<) (map item_step kept)"
proof -
  let ?plain = "hex_locations (get_new_coords ext) (step_distance self) (step_limit self) loc"
  let ?kept = "plan_of ext SpawnOnlyHexSearch (step_distance self) (step_limit self) loc"
  have sub: "subseq ?kept ?plain"
    by (simp add: plan_of_def)
  then have in_plain: "item \<in> set ?plain" if "item \<in> set ?kept" for item
    using that by (auto dest: set_mono_sublist simp: plan_of_def)
  have "HexSearch_generate_locations ext self = Inr ?plain"
    using assms by (rule HexSearch_generate_locations_Some)
  moreover have "\<forall>i < length ?plain. item_step (?plain ! i) = int i + 1"
    by (simp add: hex_locations_nth)
  moreover have "\<forall>item \<in> set ?plain. appears_seconds item = 0 \<and> disappears_seconds item = 0"
    by (simp add: hex_locations_times)
  moreover have "\<exists>self'. SpawnOnlyHexSearch_generate_locations ext self = (Inr ?kept, self')"
    using assms by (simp add: SpawnOnly_generate_locations_Some)
  moreover have "\<forall>item \<in> set ?kept. 1 \<le> item_step item \<and> item_step item \<le> int (length ?plain) \<and>
        ?plain ! nat (item_step item - 1) = item \<and>
        appears_seconds item = 0 \<and> disappears_seconds item = 0"
    using in_plain hex_locations_position hex_locations_times by blast
  moreover have "sorted_wrt (<) (map item_step ?kept)"
    by (rule plan_of_SpawnOnly_steps_increasing)
  ultimately show ?thesis using sub by blast
qed

text \<open>
  Claim C7 as it is stated asks for step \<open>i\<close> at position \<open>i\<close> of the filtered plan too.
  With one known spawnpoint, at the fourth point of the spiral, the filtered plan is that
  one item, and its step is 4.
\<close>

theorem C7_steps_counterexample:
  "fst (SpawnOnlyHexSearch_generate_locations (grid_externals [\<lparr>latitude = 1, longitude = 1\<rparr>])
          (fresh_scheduler SpawnOnlyHexSearch 2 (0, 0, 0))) = Inr [(4, (1, 1, 0), 0, 0)] \<and>
   item_step ([(4, (1, 1, 0), 0, 0)] ! 0) \<noteq> 1"
  by (simp add: SpawnOnly_generate_locations_Some [where loc = "(0, 0, 0)"] fresh_scheduler_eq
      plan_of_grid_one item_step_def)

lemma plan_of_HexSearch:
  "plan_of ext HexSearch sd n loc = hex_locations (get_new_coords ext) sd n loc"
  by (simp add: plan_of_def)

lemma schedule_pushes:
  assumes "scan_location self = Some loc" and "queues self = q # qs"
  shows "\<exists>plan.
     (if not_locations (locations self)
      then fst (generate_locations ext self) = Inr plan
      else locations self = Some plan) \<and>
     fst (schedule ext self) = Inr () \<and>
     locations (snd (schedule ext self)) = Some plan \<and>
     queues (snd (schedule ext self)) = (q @ plan) # qs"
proof (cases "not_locations (locations self)")
  case True
  let ?plan = "plan_of ext (cls self) (step_distance self) (step_limit self) loc"
  have "fst (generate_locations ext self) = Inr ?plan"
    using assms(1) by (simp add: generate_locations_Some)
  moreover have "fst (schedule ext self) = Inr () \<and>
     locations (snd (schedule ext self)) = Some ?plan \<and>
     queues (snd (schedule ext self)) = (q @ ?plan) # qs"
    using assms True
    by (simp add: schedule_generate [where loc = loc] put_locations_queue [where q = q and qs = qs])
  ultimately show ?thesis using True by auto
next
  case False
  then obtain plan where plan: "locations self = Some plan" "plan \<noteq> []"
    by (auto simp: not_locations_def split: option.splits)
  have "fst (schedule ext self) = Inr () \<and>
     locations (snd (schedule ext self)) = Some plan \<and>
     queues (snd (schedule ext self)) = (q @ plan) # qs"
    using assms plan
    by (simp add: schedule_cached [where loc = loc] put_locations_queue [where q = q and qs = qs])
  with False plan show ?thesis by auto
qed

lemma map_item_step_hex_locations:
  "map item_step (hex_locations g sd n loc) =
     map (\<lambda>i. int i + 1) [0..<length (hex_locations g sd n loc)]"
  by (rule nth_equalityI) (simp_all add: hex_locations_nth)

lemma hex_locations_first:
  assumes "n < 3"
  shows "hex_locations g sd n loc ! 0 = (1, (lat loc, lng loc, 0), 0, 0)"
proof -
  obtain rest where rest: "spiral_results g sd n loc = (lat loc, lng loc, 0) # rest"
    using spiral_results_head by blast
  with assms show ?thesis
    by (simp add: hex_locations_def center_nugget_def nth_locationsZeroed lat_def lng_def)
qed

lemma schedule_scenario:
  "\<exists>plan. queues (snd (schedule ext (fresh_scheduler HexSearch 2 (40, - 75, 0)))) = [plan] \<and>
     length plan = 7 \<and> map item_step plan = [1, 2, 3, 4, 5, 6, 7] \<and>
     plan ! 0 = (1, (40, - 75, 0), 0, 0)"
proof -
  let ?self = "fresh_scheduler HexSearch 2 (40, - 75, 0)"
  let ?plan = "hex_locations (get_new_coords ext) 0.070 2 (40, - 75, 0)"
  have len: "length ?plan = 7"
    using length_spiral_results [of 2 "get_new_coords ext" "0.070" "(40, - 75, 0)"]
    by (simp add: length_hex_locations)
  have q: "queues (snd (schedule ext ?self)) = [?plan]"
    by (simp add: fresh_scheduler_eq schedule_generate [where loc = "(40, - 75, 0)"]
        not_locations_def plan_of_HexSearch put_locations_queue [where q = "[]" and qs = "[]"])
  have st: "map item_step ?plan = [1, 2, 3, 4, 5, 6, 7]"
  proof -
    have "map item_step ?plan = map (\<lambda>i. int i + 1) [0..<7]"
      using map_item_step_hex_locations [of "get_new_coords ext" "0.070" 2 "(40, - 75, 0)"]
      unfolding len .
    also have "\<dots> = [1, 2, 3, 4, 5, 6, 7]"
      by (simp add: upt_rec)
    finally show ?thesis .
  qed
  have first: "?plan ! 0 = (1, (40, - 75, 0), 0, 0)"
    by (simp add: hex_locations_first lat_def lng_def)
  show ?thesis
    by (rule exI [of _ ?plan]) (intro conjI q len st first)
qed

text \<open>
  Claim C5, as amended. With a location set and a queue at index 0, \<^verbatim>\<open>schedule\<close>
  returns normally and appends the plan (the one it generates on a miss of the cache, the
  cached one otherwise) to that queue, item by item in the order of the plan, and leaves
  the other queues alone: the queue yields what it held before and then the plan, and a
  queue that was empty holds exactly the plan. In particular, for the
  center (40.0, -75.0, 0), step limit 2 and dense coverage, whatever the geo primitive, the
  queue holds 7 items with the steps 1 to 7, the first at the center with both times 0.
\<close>

theorem C5_schedule_pushes_plan:
  assumes "scan_location self = Some loc" and "queues self = q # qs"
  shows "(\<exists>plan.
     (if not_locations (locations self)
      then fst (generate_locations ext self) = Inr plan
      else locations self = Some plan) \<and>
     fst (schedule ext self) = Inr () \<and>
     locations (snd (schedule ext self)) = Some plan \<and>
     queues (snd (schedule ext self)) = (q @ plan) # qs \<and>
     (q = [] \<longrightarrow> queues (snd (schedule ext self)) ! 0 = plan)) \<and>
   (\<exists>plan. queues (snd (schedule ext (fresh_scheduler HexSearch 2 (40, - 75, 0)))) = [plan] \<and>
     length plan = 7 \<and> map item_step plan = [1, 2, 3, 4, 5, 6, 7] \<and>
     plan ! 0 = (1, (40, - 75, 0), 0, 0) \<and>
     appears_seconds (plan ! 0) = 0 \<and> disappears_seconds (plan ! 0) = 0)"
proof -
  from schedule_pushes [OF assms, of ext] obtain plan where
    "(if not_locations (locations self)
      then fst (generate_locations ext self) = Inr plan
      else locations self = Some plan)"
    "fst (schedule ext self) = Inr ()"
    "locations (snd (schedule ext self)) = Some plan"
    "queues (snd (schedule ext self)) = (q @ plan) # qs"
    by blast
  then have "\<exists>plan.
     (if not_locations (locations self)
      then fst (generate_locations ext self) = Inr plan
      else locations self = Some plan) \<and>
     fst (schedule ext self) = Inr () \<and>
     locations (snd (schedule ext self)) = Some plan \<and>
     queues (snd (schedule ext self)) = (q @ plan) # qs \<and>
     (q = [] \<longrightarrow> queues (snd (schedule ext self)) ! 0 = plan)"
    by (intro exI [of _ plan]) simp
  moreover from schedule_scenario [of ext] obtain plan' where
    "queues (snd (schedule ext (fresh_scheduler HexSearch 2 (40, - 75, 0)))) = [plan']"
    "length plan' = 7" "map item_step plan' = [1, 2, 3, 4, 5, 6, 7]"
    "plan' ! 0 = (1, (40, - 75, 0), 0, 0)"
    by auto
  then have "\<exists>plan. queues (snd (schedule ext (fresh_scheduler HexSearch 2 (40, - 75, 0)))) = [plan] \<and>
     length plan = 7 \<and> map item_step plan = [1, 2, 3, 4, 5, 6, 7] \<and>
     plan ! 0 = (1, (40, - 75, 0), 0, 0) \<and>
     appears_seconds (plan ! 0) = 0 \<and> disappears_seconds (plan ! 0) = 0"
    by (intro exI [of _ plan']) (simp add: appears_seconds_def disappears_seconds_def)
  ultimately show ?thesis by (rule conjI)
qed

lemma hex_locations_1: "hex_locations g sd 1 loc = [(1, (lat loc, lng loc, 0), 0, 0)]"
  by (simp add: hex_locations_def spiral_results_def center_nugget_def locationsZeroed_def
      lat_def lng_def)

lemma schedule_grid_single:
  "schedule (grid_externals []) (fresh_scheduler HexSearch 1 (0, 0, 0)) =
     (Inr (), (fresh_scheduler HexSearch 1 (0, 0, 0))
        \<lparr>generate_calls := 1, locations := Some [(1, (0, 0, 0), 0, 0)],
         queues := [[(1, (0, 0, 0), 0, 0)]],
         log := [DEBUG_Added_location (1, (0, 0, 0), 0, 0)]\<rparr>)"
  by (simp add: fresh_scheduler_eq schedule_generate [where loc = "(0, 0, 0)"] not_locations_def
      plan_of_HexSearch hex_locations_1 generate_log_def lat_def lng_def)

text \<open>
  Claim C5 as it is stated has the queue yield exactly the plan after \<^verbatim>\<open>schedule\<close>.
  \<^verbatim>\<open>put\<close> appends: after a second \<^verbatim>\<open>schedule\<close>, with the item of the first still
  queued, the queue holds the one item of the plan twice.
\<close>

theorem C5_queue_not_empty_counterexample:
  "scan_location (snd (schedule (grid_externals []) (fresh_scheduler HexSearch 1 (0, 0, 0)))) =
     Some (0, 0, 0) \<and>
   locations (snd (schedule (grid_externals [])
     (snd (schedule (grid_externals []) (fresh_scheduler HexSearch 1 (0, 0, 0)))))) =
     Some [(1, (0, 0, 0), 0, 0)] \<and>
   queues (snd (schedule (grid_externals [])
     (snd (schedule (grid_externals []) (fresh_scheduler HexSearch 1 (0, 0, 0)))))) ! 0 =
     [(1, (0, 0, 0), 0, 0), (1, (0, 0, 0), 0, 0)] \<and>
   queues (snd (schedule (grid_externals [])
     (snd (schedule (grid_externals []) (fresh_scheduler HexSearch 1 (0, 0, 0)))))) ! 0 \<noteq>
     [(1, (0, 0, 0), 0, 0)]"
  unfolding schedule_grid_single
  by (simp add: fresh_scheduler_eq schedule_cached [where loc = "(0, 0, 0)"])


section \<open>The cache of the plan\<close>

lemma schedule_frame:
  "cls (snd (schedule ext self)) = cls self \<and>
   step_distance (snd (schedule ext self)) = step_distance self \<and>
   step_limit (snd (schedule ext self)) = step_limit self \<and>
   scan_location (snd (schedule ext self)) = scan_location self"
proof (cases "scan_location self")
  case None
  then show ?thesis by (simp add: schedule_unset)
next
  case (Some loc)
  show ?thesis
  proof (cases "not_locations (locations self)")
    case True
    with Some show ?thesis
      by (simp add: schedule_generate [where loc = loc] put_locations_frame)
  next
    case False
    then obtain locs where "locations self = Some locs" "locs \<noteq> []"
      by (auto simp: not_locations_def split: option.splits)
    with Some show ?thesis
      by (simp add: schedule_cached [where loc = loc] put_locations_frame)
  qed
qed

lemma schedule_locations:
  "locations (snd (schedule ext self)) =
     (case scan_location self of
        None \<Rightarrow> locations self
      | Some loc \<Rightarrow>
          if not_locations (locations self)
          then Some (plan_of ext (cls self) (step_distance self) (step_limit self) loc)
          else locations self)"
proof (cases "scan_location self")
  case None
  then show ?thesis by (simp add: schedule_unset)
next
  case (Some loc)
  show ?thesis
  proof (cases "not_locations (locations self)")
    case True
    with Some show ?thesis
      by (simp add: schedule_generate [where loc = loc] put_locations_frame)
  next
    case False
    then obtain locs where "locations self = Some locs" "locs \<noteq> []"
      by (auto simp: not_locations_def split: option.splits)
    with Some False show ?thesis
      by (simp add: schedule_cached [where loc = loc] put_locations_frame)
  qed
qed

lemma schedule_generate_calls:
  "generate_calls (snd (schedule ext self)) =
     (if scan_location self \<noteq> None \<and> not_locations (locations self)
      then generate_calls self + 1 else generate_calls self)"
proof (cases "scan_location self")
  case None
  then show ?thesis by (simp add: schedule_unset)
next
  case (Some loc)
  show ?thesis
  proof (cases "not_locations (locations self)")
    case True
    with Some show ?thesis
      by (simp add: schedule_generate [where loc = loc] put_locations_frame)
  next
    case False
    then obtain locs where "locations self = Some locs" "locs \<noteq> []"
      by (auto simp: not_locations_def split: option.splits)
    with Some False show ?thesis
      by (simp add: schedule_cached [where loc = loc] put_locations_frame)
  qed
qed

text \<open>The cached plan of a reachable state is the plan of its location.\<close>

lemma reachable_cache:
  assumes "reachable ext self" and "locations self = Some locs"
  shows "\<exists>loc. scan_location self = Some loc \<and>
           locs = plan_of ext (cls self) (step_distance self) (step_limit self) loc"
  using assms
proof (induction arbitrary: locs rule: reachable.induct)
  case (init c qs st a)
  then show ?case by (simp add: HexSearch_init_def)
next
  case (schedule self)
  show ?case
  proof (cases "scan_location self")
    case None
    with schedule.prems have "locations self = Some locs"
      by (simp add: schedule_locations)
    from schedule.IH [OF this] None show ?thesis by simp
  next
    case (Some loc)
    show ?thesis
    proof (cases "not_locations (locations self)")
      case True
      with Some schedule.prems show ?thesis
        by (simp add: schedule_locations schedule_frame)
    next
      case False
      with Some schedule.prems have "locations self = Some locs"
        by (simp add: schedule_locations)
      from schedule.IH [OF this] show ?thesis
        by (simp add: schedule_frame)
    qed
  qed
next
  case (location_changed self loc)
  then show ?case by (simp add: location_changed_eq)
next
  case (scanning_paused self)
  then show ?case by (simp add: scanning_paused_def empty_queues_eq)
next
  case (scanning_unpause self)
  then show ?case by (simp add: scanning_unpause_def)
next
  case (worker_get self i)
  then show ?case by simp
qed

lemma hex_locations_not_empty: "hex_locations g sd n loc \<noteq> []"
proof -
  obtain rest where "spiral_results g sd n loc = (lat loc, lng loc, 0) # rest"
    using spiral_results_head by blast
  then have "length (hex_locations g sd n loc) = Suc (length rest)"
    by (simp add: length_hex_locations)
  then show ?thesis by auto
qed

text \<open>A scheduler of class \<^verbatim>\<open>HexSearch\<close> never holds an empty plan.\<close>

lemma reachable_HexSearch_cache_not_empty:
  assumes "reachable ext self" and "cls self = HexSearch" and "locations self = Some locs"
  shows "locs \<noteq> []"
  using reachable_cache [OF assms(1,3)] assms(2)
  by (auto simp: plan_of_HexSearch hex_locations_not_empty)

text \<open>With a plan that is not empty, \<^verbatim>\<open>schedule\<close> does not generate.\<close>

lemma schedule_cached_frame:
  assumes "scan_location self = Some loc" and "locations self = Some locs" and "locs \<noteq> []"
  shows "generate_calls (snd (schedule ext self)) = generate_calls self \<and>
         locations (snd (schedule ext self)) = Some locs"
  using assms by (simp add: schedule_generate_calls schedule_locations not_locations_def)

lemma empty_cache_step:
  assumes "reachable ext self" and "locations self = Some []"
  shows "reachable ext (snd (schedule ext self)) \<and>
         locations (snd (schedule ext self)) = Some [] \<and>
         generate_calls (snd (schedule ext self)) = generate_calls self + 1 \<and>
         queues (snd (schedule ext self)) = queues self"
proof -
  from reachable_cache [OF assms] obtain loc where loc: "scan_location self = Some loc"
    and empty: "plan_of ext (cls self) (step_distance self) (step_limit self) loc = []"
    by auto
  have miss: "not_locations (locations self)"
    using assms(2) by (simp add: not_locations_def)
  have "reachable ext (snd (schedule ext self))"
    using assms(1) by (rule reachable.schedule)
  moreover have "locations (snd (schedule ext self)) = Some []"
    using loc miss empty by (simp add: schedule_locations)
  moreover have "generate_calls (snd (schedule ext self)) = generate_calls self + 1"
    using loc miss by (simp add: schedule_generate_calls)
  moreover have "queues (snd (schedule ext self)) = queues self"
    using loc miss empty by (simp add: schedule_generate [where loc = loc])
  ultimately show ?thesis by simp
qed

lemma empty_cache_run:
  assumes "reachable ext self" and "locations self = Some []"
  shows "reachable ext (((\<lambda>s. snd (schedule ext s)) ^^ k) self) \<and>
         locations (((\<lambda>s. snd (schedule ext s)) ^^ k) self) = Some [] \<and>
         generate_calls (((\<lambda>s. snd (schedule ext s)) ^^ k) self) = generate_calls self + k"
proof (induction k)
  case 0
  from assms show ?case by simp
next
  case (Suc k)
  then show ?case
    using empty_cache_step [of ext "((\<lambda>s. snd (schedule ext s)) ^^ k) self"] by simp
qed

text \<open>
  Claim C10. In a state that a scheduler can reach with the empty list as its cached plan,
  \<^verbatim>\<open>schedule\<close> calls the generator again and again caches the empty list, and so does
  every later \<^verbatim>\<open>schedule\<close>: after \<open>k\<close> calls the generator has run \<open>k\<close> more times.
  And in any state with a location, a \<^verbatim>\<open>schedule\<close> that does not call the generator
  found a cached plan that is not empty.
\<close>

theorem C10_empty_plan_not_cached:
  assumes "reachable ext self" and "locations self = Some []"
  shows "generate_calls (snd (schedule ext self)) = generate_calls self + 1 \<and>
         locations (snd (schedule ext self)) = Some [] \<and>
         (\<forall>k. generate_calls (((\<lambda>s. snd (schedule ext s)) ^^ k) self) = generate_calls self + k) \<and>
         (scan_location other \<noteq> None \<and>
            generate_calls (snd (schedule ext other)) = generate_calls other \<longrightarrow>
          (\<exists>locs. locations other = Some locs \<and> locs \<noteq> []))"
proof -
  have "scan_location other \<noteq> None \<and>
            generate_calls (snd (schedule ext other)) = generate_calls other \<longrightarrow>
          (\<exists>locs. locations other = Some locs \<and> locs \<noteq> [])"
    by (auto simp: schedule_generate_calls not_locations_def split: if_splits option.splits)
  with empty_cache_step [OF assms] empty_cache_run [OF assms] show ?thesis by simp
qed

lemma schedule_grid_none:
  "schedule (grid_externals []) (fresh_scheduler SpawnOnlyHexSearch 2 (0, 0, 0)) =
     (Inr (), (fresh_scheduler SpawnOnlyHexSearch 2 (0, 0, 0))
        \<lparr>generate_calls := 1, log := [no_spawnpoints_warning], locations := Some []\<rparr>)"
  by (simp add: fresh_scheduler_eq schedule_generate [where loc = "(0, 0, 0)"] not_locations_def
      plan_of_grid_none generate_log_def spawnpoints_of_grid_none)

text \<open>
  Claim C4, at an input where the code departs from it. A \<^verbatim>\<open>SpawnOnlyHexSearch\<close> whose
  store knows no spawnpoint caches the empty plan at its first \<^verbatim>\<open>schedule\<close>; the second
  \<^verbatim>\<open>schedule\<close>, with that plan cached and no \<^verbatim>\<open>location_changed\<close> in between, calls
  the generator again.
\<close>

theorem C4_empty_plan_generated_again:
  "locations (snd (schedule (grid_externals [])
      (fresh_scheduler SpawnOnlyHexSearch 2 (0, 0, 0)))) = Some [] \<and>
   generate_calls (snd (schedule (grid_externals [])
      (fresh_scheduler SpawnOnlyHexSearch 2 (0, 0, 0)))) = 1 \<and>
   generate_calls (snd (schedule (grid_externals [])
      (snd (schedule (grid_externals [])
        (fresh_scheduler SpawnOnlyHexSearch 2 (0, 0, 0)))))) = 2"
  unfolding schedule_grid_none
  by (simp add: schedule_generate_calls not_locations_def fresh_scheduler_eq)

theorem C10_empty_plan_not_cached_witness:
  "reachable (grid_externals [])
     (snd (schedule (grid_externals []) (fresh_scheduler SpawnOnlyHexSearch 2 (0, 0, 0)))) \<and>
   locations (snd (schedule (grid_externals [])
     (fresh_scheduler SpawnOnlyHexSearch 2 (0, 0, 0)))) = Some [] \<and>
   generate_calls (snd (schedule (grid_externals [])
      (snd (schedule (grid_externals [])
        (fresh_scheduler SpawnOnlyHexSearch 2 (0, 0, 0)))))) = 2 \<and>
   scan_location (snd (schedule (grid_externals []) (fresh_scheduler HexSearch 1 (0, 0, 0)))) \<noteq> None \<and>
   generate_calls (snd (schedule (grid_externals [])
      (snd (schedule (grid_externals []) (fresh_scheduler HexSearch 1 (0, 0, 0)))))) =
     generate_calls (snd (schedule (grid_externals []) (fresh_scheduler HexSearch 1 (0, 0, 0)))) \<and>
   (\<exists>locs. locations (snd (schedule (grid_externals []) (fresh_scheduler HexSearch 1 (0, 0, 0))))
       = Some locs \<and> locs \<noteq> [])"
proof -
  let ?s1 = "snd (schedule (grid_externals []) (fresh_scheduler SpawnOnlyHexSearch 2 (0, 0, 0)))"
  let ?other = "snd (schedule (grid_externals []) (fresh_scheduler HexSearch 1 (0, 0, 0)))"
  have r: "reachable (grid_externals []) ?s1"
    unfolding fresh_scheduler_def
    by (intro reachable.schedule reachable.location_changed reachable.init)
  have l: "locations ?s1 = Some []"
    by (simp add: schedule_grid_none)
  have g: "generate_calls ?s1 = 1"
    by (simp add: schedule_grid_none)
  have o1: "scan_location ?other \<noteq> None"
    by (simp add: schedule_frame fresh_scheduler_eq)
  have "locations ?other =
      Some (hex_locations (get_new_coords (grid_externals [])) 0.070 1 (0, 0, 0))"
    by (simp add: schedule_locations fresh_scheduler_eq not_locations_def plan_of_HexSearch)
  then have o2: "generate_calls (snd (schedule (grid_externals []) ?other)) = generate_calls ?other"
    using o1 by (simp add: schedule_generate_calls [of _ ?other] not_locations_def
        hex_locations_not_empty)
  from C10_empty_plan_not_cached [OF r l, of ?other] g r l o1 o2 show ?thesis by simp
qed

section \<open>The theorems at concrete inputs\<close>

theorem C3_location_changed_witness:
  "scan_location (location_changed (0, 0, 0)
      (snd (schedule (grid_externals []) (fresh_scheduler HexSearch 2 (0, 0, 0))))) = Some (0, 0, 0) \<and>
   queues (location_changed (0, 0, 0)
      (snd (schedule (grid_externals []) (fresh_scheduler HexSearch 2 (0, 0, 0))))) = [[]] \<and>
   locations (location_changed (0, 0, 0)
      (snd (schedule (grid_externals []) (fresh_scheduler HexSearch 2 (0, 0, 0))))) = None \<and>
   generate_calls (snd (schedule (grid_externals []) (location_changed (0, 0, 0)
      (snd (schedule (grid_externals []) (fresh_scheduler HexSearch 2 (0, 0, 0))))))) = 2"
proof -
  let ?s1 = "snd (schedule (grid_externals []) (fresh_scheduler HexSearch 2 (0, 0, 0)))"
  have g: "generate_calls ?s1 = 1"
    by (simp add: schedule_generate_calls fresh_scheduler_eq not_locations_def)
  obtain plan where "queues ?s1 = ([] @ plan) # []"
    using schedule_pushes
      [of "fresh_scheduler HexSearch 2 (0, 0, 0)" "(0, 0, 0)" "[]" "[]" "grid_externals []"]
    by (auto simp: fresh_scheduler_eq)
  then have q: "map (\<lambda>queue. []) (queues ?s1) = [[]]" by simp
  from C3_location_changed [of "(0, 0, 0)" ?s1 "grid_externals []"] g q show ?thesis by simp
qed

theorem C5_schedule_pushes_plan_witness:
  "scan_location (fresh_scheduler HexSearch 2 (40, - 75, 0)) = Some (40, - 75, 0) \<and>
   queues (fresh_scheduler HexSearch 2 (40, - 75, 0)) = [] # [] \<and>
   (\<exists>plan.
     (if not_locations (locations (fresh_scheduler HexSearch 2 (40, - 75, 0)))
      then fst (generate_locations (grid_externals []) (fresh_scheduler HexSearch 2 (40, - 75, 0))) = Inr plan
      else locations (fresh_scheduler HexSearch 2 (40, - 75, 0)) = Some plan) \<and>
     fst (schedule (grid_externals []) (fresh_scheduler HexSearch 2 (40, - 75, 0))) = Inr () \<and>
     locations (snd (schedule (grid_externals []) (fresh_scheduler HexSearch 2 (40, - 75, 0)))) = Some plan \<and>
     queues (snd (schedule (grid_externals []) (fresh_scheduler HexSearch 2 (40, - 75, 0)))) = ([] @ plan) # [] \<and>
     ([] = ([] :: scan_item list) \<longrightarrow>
        queues (snd (schedule (grid_externals []) (fresh_scheduler HexSearch 2 (40, - 75, 0)))) ! 0 = plan))"
proof -
  have h1: "scan_location (fresh_scheduler HexSearch 2 (40, - 75, 0)) = Some (40, - 75, 0)"
    by (simp add: fresh_scheduler_eq)
  have h2: "queues (fresh_scheduler HexSearch 2 (40, - 75, 0)) = [] # []"
    by (simp add: fresh_scheduler_eq)
  from C5_schedule_pushes_plan [OF h1 h2, of "grid_externals []"] have
    "\<exists>plan.
     (if not_locations (locations (fresh_scheduler HexSearch 2 (40, - 75, 0)))
      then fst (generate_locations (grid_externals []) (fresh_scheduler HexSearch 2 (40, - 75, 0))) = Inr plan
      else locations (fresh_scheduler HexSearch 2 (40, - 75, 0)) = Some plan) \<and>
     fst (schedule (grid_externals []) (fresh_scheduler HexSearch 2 (40, - 75, 0))) = Inr () \<and>
     locations (snd (schedule (grid_externals []) (fresh_scheduler HexSearch 2 (40, - 75, 0)))) = Some plan \<and>
     queues (snd (schedule (grid_externals []) (fresh_scheduler HexSearch 2 (40, - 75, 0)))) = ([] @ plan) # [] \<and>
     ([] = ([] :: scan_item list) \<longrightarrow>
        queues (snd (schedule (grid_externals []) (fresh_scheduler HexSearch 2 (40, - 75, 0)))) ! 0 = plan)"
    by (rule conjunct1)
  with h1 h2 show ?thesis by (intro conjI)
qed


theorem C7_steps_witness:
  "scan_location (fresh_scheduler SpawnOnlyHexSearch 2 (0, 0, 0)) = Some (0, 0, 0) \<and>
   (\<exists>plain kept self'.
     HexSearch_generate_locations (grid_externals [\<lparr>latitude = 1, longitude = 1\<rparr>])
       (fresh_scheduler SpawnOnlyHexSearch 2 (0, 0, 0)) = Inr plain \<and>
     (\<forall>i < length plain. item_step (plain ! i) = int i + 1) \<and>
     (\<forall>item \<in> set plain. appears_seconds item = 0 \<and> disappears_seconds item = 0) \<and>
     SpawnOnlyHexSearch_generate_locations (grid_externals [\<lparr>latitude = 1, longitude = 1\<rparr>])
       (fresh_scheduler SpawnOnlyHexSearch 2 (0, 0, 0)) = (Inr kept, self') \<and>
     subseq kept plain \<and>
     (\<forall>item \<in> set kept. 1 \<le> item_step item \<and> item_step item \<le> int (length plain) \<and>
        plain ! nat (item_step item - 1) = item \<and>
        appears_seconds item = 0 \<and> disappears_seconds item = 0) \<and>
     sorted_wrt (<) (map item_step kept))"
proof -
  have h: "scan_location (fresh_scheduler SpawnOnlyHexSearch 2 (0, 0, 0)) = Some (0, 0, 0)"
    by (simp add: fresh_scheduler_eq)
  show ?thesis
    by (rule conjI [OF h C7_steps [OF h]])
qed

end
